theory Spec2Isabelle
  imports Complex_Main "HOL-Library.Char_ord" "HOL-Library.Sublist"
begin

unbundle bit_operations_syntax

section \<open>Python values, errors and strings\<close>

text \<open>
  The development embeds the collapse engine of \<^verbatim>\<open>t13_collapse.py\<close> and the matcher and
  sweep controller of \<^verbatim>\<open>Claude.py\<close>. Python integers are unbounded and are modelled
  as \<^typ>\<open>int\<close>. A Python string is modelled as a \<^typ>\<open>string\<close>; the model is exact for
  ASCII text. A code point beyond ASCII appears as its UTF-8 bytes, which keeps equality
  and the substring test exact, while length, case mapping, whitespace and Unicode
  normalisation of such code points are outside the model. An exception is a value of
  type \<open>error\<close>, and a function that can raise returns \<open>error + 'a\<close> with the error
  on the left.

  \<^item> \<open>ValueError m\<close> is a \<^verbatim>\<open>ValueError\<close> raised by the module itself, with its message.
  \<^item> \<open>ConversionError\<close> is the \<^verbatim>\<open>ValueError\<close> that the interpreter raises in
    \<^verbatim>\<open>int(s)\<close> for a string that is not an integer literal, and in \<^verbatim>\<open>int(s)\<close> and
    \<^verbatim>\<open>str(n)\<close> beyond the limit on the number of digits; its message is not modelled.
  \<^item> \<open>TypeError\<close> is raised by the comparison of a string with an integer.
  \<^item> \<open>KeyError\<close> is raised by a dictionary lookup.
\<close>

datatype error = ValueError string | ConversionError | TypeError | KeyError

text \<open>
  A value that is an integer or a string: the argument \<^verbatim>\<open>x: Union[int, str]\<close> of the
  collapse operations, and their argument \<^verbatim>\<open>D\<close>, which is declared an integer but is
  converted under \<^verbatim>\<open>try\<close> by the guard.
\<close>

datatype pyval = PyInt int | PyStr string

definition digit_char :: "nat \<Rightarrow> char" where
  "digit_char d = char_of (48 + d)"

definition digit_val :: "char \<Rightarrow> int" where
  "digit_val c = int (of_char c) - 48"

definition is_digit :: "char \<Rightarrow> bool" where
  "is_digit c = (CHR ''0'' \<le> c \<and> c \<le> CHR ''9'')"

text \<open>The decimal digits of a natural number, most significant first.\<close>

function str_nat :: "nat \<Rightarrow> string" where
  "str_nat k = (if k < 10 then [digit_char k] else str_nat (k div 10) @ [digit_char (k mod 10)])"
  by pat_completeness auto
termination
  by (relation "measure id") auto

declare str_nat.simps [simp del]

text \<open>
  The default of \<^verbatim>\<open>sys.get_int_max_str_digits()\<close>: the interpreter refuses to convert
  between an integer and a decimal string of more digits than this.
\<close>

definition MAX_STR_DIGITS :: nat where
  "MAX_STR_DIGITS = 4300"

text \<open>\<^verbatim>\<open>str(n)\<close> for a non-negative integer, and for any integer.\<close>

definition py_str_nat :: "nat \<Rightarrow> error + string" where
  "py_str_nat k =
     (let s = str_nat k in if MAX_STR_DIGITS < length s then Inl ConversionError else Inr s)"

definition py_str_int :: "int \<Rightarrow> error + string" where
  "py_str_int k =
     (case py_str_nat (nat \<bar>k\<bar>) of
        Inl e \<Rightarrow> Inl e
      | Inr s \<Rightarrow> Inr (if k < 0 then CHR ''-'' # s else s))"

text \<open>The positional value of a string of decimal digits.\<close>

definition int_of_digits :: "string \<Rightarrow> int" where
  "int_of_digits s = foldl (\<lambda>a c. 10 * a + digit_val c) 0 s"

text \<open>
  \<^verbatim>\<open>int(s)\<close> on a string. The whitespace of the C locale (tab, line feed, vertical tab,
  form feed, carriage return, space) is skipped on both sides, one sign is allowed, and
  the rest must be decimal digits in groups separated by single underscores, with no
  more digits than the limit; anything else raises.
\<close>

definition c_space :: "char \<Rightarrow> bool" where
  "c_space c = (let k = (of_char c :: nat) in (9 \<le> k \<and> k \<le> 13) \<or> k = 32)"

definition c_strip :: "string \<Rightarrow> string" where
  "c_strip s = rev (dropWhile c_space (rev (dropWhile c_space s)))"

fun valid_body :: "string \<Rightarrow> bool" where
  "valid_body [] = False"
| "valid_body [c] = is_digit c"
| "valid_body (c # d # r) =
     (is_digit c \<and> (if d = CHR ''_'' then valid_body r else valid_body (d # r)))"

definition py_int_of_str :: "string \<Rightarrow> error + int" where
  "py_int_of_str s =
     (let t = c_strip s;
          neg = (t \<noteq> [] \<and> hd t = CHR ''-'');
          body = (if t \<noteq> [] \<and> (hd t = CHR ''-'' \<or> hd t = CHR ''+'') then tl t else t);
          ds = filter (\<lambda>c. c \<noteq> CHR ''_'') body
      in if valid_body body \<and> length ds \<le> MAX_STR_DIGITS
         then Inr ((if neg then - 1 else 1) * int_of_digits ds)
         else Inl ConversionError)"

text \<open>\<^verbatim>\<open>int(v)\<close> and \<^verbatim>\<open>str(v)\<close> on an integer or a string.\<close>

fun py_int :: "pyval \<Rightarrow> error + int" where
  "py_int (PyInt k) = Inr k"
| "py_int (PyStr s) = py_int_of_str s"

fun py_str :: "pyval \<Rightarrow> error + string" where
  "py_str (PyInt k) = py_str_int k"
| "py_str (PyStr s) = Inr s"

text \<open>
  The whitespace that \<^verbatim>\<open>str.strip()\<close> removes: besides that of the C locale, the four
  separator characters 28 to 31.
\<close>

definition is_space :: "char \<Rightarrow> bool" where
  "is_space c = (let k = (of_char c :: nat) in (9 \<le> k \<and> k \<le> 13) \<or> (28 \<le> k \<and> k \<le> 32))"

definition strip :: "string \<Rightarrow> string" where
  "strip s = rev (dropWhile is_space (rev (dropWhile is_space s)))"

definition upper_char :: "char \<Rightarrow> char" where
  "upper_char c = (if CHR ''a'' \<le> c \<and> c \<le> CHR ''z'' then char_of (of_char c - (32::nat)) else c)"

definition lower_char :: "char \<Rightarrow> char" where
  "lower_char c = (if CHR ''A'' \<le> c \<and> c \<le> CHR ''Z'' then char_of (of_char c + (32::nat)) else c)"

definition lower :: "string \<Rightarrow> string" where
  "lower s = map lower_char s"

section \<open>The text encoder\<close>

text \<open>
  \<^verbatim>\<open>ALPHA_MAP = {chr(ord('A') + i): str(i + 1) for i in range(26)}\<close>: a dictionary
  from the capital letters to the decimal strings of 1 to 26.
\<close>

definition ALPHA_MAP :: "char \<rightharpoonup> string" where
  "ALPHA_MAP c =
     (if CHR ''A'' \<le> c \<and> c \<le> CHR ''Z'' then Some (str_nat (of_char c - 64)) else None)"

text \<open>The character class \<^verbatim>\<open>[A-Za-z]\<close> of the regular expression.\<close>

definition is_alpha :: "char \<Rightarrow> bool" where
  "is_alpha c = ((CHR ''A'' \<le> c \<and> c \<le> CHR ''Z'') \<or> (CHR ''a'' \<le> c \<and> c \<le> CHR ''z''))"

text \<open>
  The value of \<^verbatim>\<open>cleaned\<close>: on ASCII text the NFKD normalisation changes nothing and
  no character is combining, so what remains is the upper-casing and the removal of
  every character outside \<^verbatim>\<open>[A-Za-z]\<close>.
\<close>

definition cleaned_text :: "string \<Rightarrow> string" where
  "cleaned_text text = filter is_alpha (map upper_char text)"

text \<open>The lookups \<^verbatim>\<open>ALPHA_MAP[ch] for ch in cleaned\<close>; a missing key raises.\<close>

fun alpha_digits :: "string \<Rightarrow> error + string list" where
  "alpha_digits [] = Inr []"
| "alpha_digits (ch # r) =
     (case ALPHA_MAP ch of
        None \<Rightarrow> Inl KeyError
      | Some d \<Rightarrow> (case alpha_digits r of Inl e \<Rightarrow> Inl e | Inr ds \<Rightarrow> Inr (d # ds)))"

text \<open>The values \<^verbatim>\<open>int(ALPHA_MAP[ch]) for ch in cleaned\<close>.\<close>

fun alpha_values :: "string \<Rightarrow> error + int list" where
  "alpha_values [] = Inr []"
| "alpha_values (ch # r) =
     (case ALPHA_MAP ch of
        None \<Rightarrow> Inl KeyError
      | Some d \<Rightarrow>
          (case py_int_of_str d of
             Inl e \<Rightarrow> Inl e
           | Inr v \<Rightarrow> (case alpha_values r of Inl e \<Rightarrow> Inl e | Inr vs \<Rightarrow> Inr (v # vs))))"

definition text_to_number :: "string \<Rightarrow> string \<Rightarrow> error + int" where
  "text_to_number text mode =
     (if length text > 100 \<and> mode = ''concat''
      then Inl (ValueError ''Text input too long for concat mode (max 100 chars).'')
      else let cleaned = cleaned_text text in
        if cleaned = [] then Inl (ValueError ''No alphabetic characters found in text input.'')
        else if mode = ''concat''
        then (case alpha_digits cleaned of
                Inl e \<Rightarrow> Inl e
              | Inr ds \<Rightarrow> py_int_of_str (concat ds))
        else if mode = ''sum''
        then (case alpha_values cleaned of
                Inl e \<Rightarrow> Inl e
              | Inr vs \<Rightarrow> Inr (sum_list vs))
        else Inl (ValueError ''Mode must be 'concat' or 'sum'.''))"

section \<open>The collapse engine\<close>

text \<open>\<^verbatim>\<open>digits_of\<close>: \<^verbatim>\<open>str(abs(int(n)))\<close> on an integer.\<close>

definition digits_of :: "int \<Rightarrow> error + string" where
  "digits_of k = py_str_nat (nat \<bar>k\<bar>)"

definition reverse_int :: "int \<Rightarrow> error + int" where
  "reverse_int k = (case digits_of k of Inl e \<Rightarrow> Inl e | Inr s \<Rightarrow> py_int_of_str (rev s))"

text \<open>\<^verbatim>\<open>sorted(s, reverse=r)\<close> on the characters of a string.\<close>

definition py_sorted :: "string \<Rightarrow> bool \<Rightarrow> string" where
  "py_sorted s r = (if r then rev (sort s) else sort s)"

definition sort_digits :: "int \<Rightarrow> bool \<Rightarrow> error + int" where
  "sort_digits k r =
     (case digits_of k of Inl e \<Rightarrow> Inl e | Inr s \<Rightarrow> py_int_of_str (py_sorted s r))"

definition f1_kaprekar :: "int \<Rightarrow> error + int" where
  "f1_kaprekar k =
     (case sort_digits k True of
        Inl e \<Rightarrow> Inl e
      | Inr desc \<Rightarrow>
          (case sort_digits k False of
             Inl e \<Rightarrow> Inl e
           | Inr asc \<Rightarrow> Inr \<bar>desc - asc\<bar>))"

definition f2_mirror :: "int \<Rightarrow> error + int" where
  "f2_mirror k = (case reverse_int k of Inl e \<Rightarrow> Inl e | Inr r \<Rightarrow> Inr \<bar>k - r\<bar>)"

text \<open>The values \<^verbatim>\<open>int(d)\<close> of the characters of a string, in order.\<close>

fun int_each :: "string \<Rightarrow> error + int list" where
  "int_each [] = Inr []"
| "int_each (d # r) =
     (case py_int_of_str [d] of
        Inl e \<Rightarrow> Inl e
      | Inr v \<Rightarrow> (case int_each r of Inl e \<Rightarrow> Inl e | Inr vs \<Rightarrow> Inr (v # vs)))"

definition f3_weighted :: "int \<Rightarrow> int \<Rightarrow> error + int" where
  "f3_weighted k start_index =
     (case digits_of k of
        Inl e \<Rightarrow> Inl e
      | Inr s \<Rightarrow>
          (case int_each s of
             Inl e \<Rightarrow> Inl e
           | Inr vs \<Rightarrow>
               Inr (sum_list (map (\<lambda>(i, v). v * (int i + start_index)) (enumerate 0 vs)))))"

text \<open>
  \<^verbatim>\<open>harmonic_constant\<close>; on a string the comparison \<^verbatim>\<open>D < 1\<close> raises.
\<close>

fun harmonic_constant :: "pyval \<Rightarrow> error + int" where
  "harmonic_constant (PyInt d) =
     (if d < 1 then Inl (ValueError ''Dimension D must be positive.'') else Inr (13 * (d - 8)))"
| "harmonic_constant (PyStr s) = Inl TypeError"

definition T8_UNIVERSAL :: "int \<rightharpoonup> string" where
  "T8_UNIVERSAL = map_of
     [(0, ''All motion spirals''),
      (1, ''Energy is memory''),
      (2, ''The center watches''),
      (3, ''Polarity balances''),
      (4, ''Patterns are laws''),
      (5, ''Collapse is recursion''),
      (6, ''Function precedes name''),
      (7, ''That which repeats is real'')]"

definition T8_HEART :: "int \<rightharpoonup> string" where
  "T8_HEART = map_of
     [(0, ''Presence''),
      (1, ''Signal''),
      (2, ''Intention''),
      (3, ''Phase''),
      (4, ''Joy''),
      (5, ''Awe''),
      (6, ''Collapse''),
      (7, ''Truth'')]"

text \<open>The table selected by \<^verbatim>\<open>map_to_t8\<close>, and the lookup itself.\<close>

definition t8_table :: "string \<Rightarrow> (int \<rightharpoonup> string)" where
  "t8_table set_name = (if lower set_name = ''universal'' then T8_UNIVERSAL else T8_HEART)"

definition map_to_t8 :: "int \<Rightarrow> string \<Rightarrow> error + string" where
  "map_to_t8 v set_name =
     (case t8_table set_name (v mod 8) of None \<Rightarrow> Inl KeyError | Some t \<Rightarrow> Inr t)"

text \<open>
  \<^verbatim>\<open>sentinel_lock\<close>. The first argument is an integer wherever the function is called,
  so \<^verbatim>\<open>int(n)\<close> cannot raise. When \<^verbatim>\<open>int(D)\<close> raises, the \<^verbatim>\<open>except\<close> clause answers
  \<^verbatim>\<open>True\<close>. Otherwise \<^verbatim>\<open>n < 0 or D < 1\<close> is evaluated on the arguments as they are:
  the second comparison is reached only when \<^verbatim>\<open>n\<close> is not negative, and it raises on
  a string.
\<close>

definition sentinel_lock :: "int \<Rightarrow> pyval \<Rightarrow> error + bool" where
  "sentinel_lock k D =
     (case py_int D of
        Inl e \<Rightarrow> Inr True
      | Inr v \<Rightarrow>
          if k < 0 then Inr True
          else (case D of PyInt d \<Rightarrow> Inr (d < 1) | PyStr s \<Rightarrow> Inl TypeError))"

text \<open>The sentinel label; the Greek letter psi is written as its two UTF-8 bytes.\<close>

definition SENTINEL :: string where
  "SENTINEL = ''Sentinel Lock: recursion terminated ('' @ [CHR 0xCF, CHR 0x88] @ ''(0)).''"

text \<open>
  The first statement of both collapse operations:
  \<^verbatim>\<open>n = text_to_number(str(x), mode=text_mode) if from_text else int(x)\<close>.
\<close>

definition resolve_n :: "pyval \<Rightarrow> bool \<Rightarrow> string \<Rightarrow> error + int" where
  "resolve_n x from_text text_mode =
     (if from_text
      then (case py_str x of Inl e \<Rightarrow> Inl e | Inr s \<Rightarrow> text_to_number s text_mode)
      else py_int x)"

text \<open>
  \<^verbatim>\<open>t13_collapse\<close>; the flag \<^verbatim>\<open>verbose\<close> only prints and is left out.
\<close>

definition t13_collapse ::
  "pyval \<Rightarrow> pyval \<Rightarrow> int \<Rightarrow> bool \<Rightarrow> string \<Rightarrow> int \<Rightarrow> string \<Rightarrow> error + (int \<times> string)" where
  "t13_collapse x D base from_text text_mode start_index t8_set =
     (case resolve_n x from_text text_mode of
        Inl e \<Rightarrow> Inl e
      | Inr k \<Rightarrow>
     (case sentinel_lock k D of
        Inl e \<Rightarrow> Inl e
      | Inr b \<Rightarrow>
          if b \<or> base < 2 then Inr (0, SENTINEL)
          else
     (case f1_kaprekar k of
        Inl e \<Rightarrow> Inl e
      | Inr f1 \<Rightarrow>
     (case f2_mirror k of
        Inl e \<Rightarrow> Inl e
      | Inr f2 \<Rightarrow>
     (case f3_weighted k start_index of
        Inl e \<Rightarrow> Inl e
      | Inr f3 \<Rightarrow>
          (let collapsed = (f1 + f2 + f3) mod base in
     (case harmonic_constant D of
        Inl e \<Rightarrow> Inl e
      | Inr H_D \<Rightarrow>
          (let fused = collapsed XOR H_D;
               idx = fused mod 8
           in (case map_to_t8 idx t8_set of
                 Inl e \<Rightarrow> Inl e
               | Inr truth \<Rightarrow> Inr (idx, truth))))))))))"

text \<open>The dictionary returned by \<^verbatim>\<open>t13_trace\<close>, one field for each key.\<close>

record trace =
  t_n :: int
  t_D :: pyval
  t_base :: int
  t_f1 :: int
  t_f2 :: int
  t_f3 :: int
  t_collapsed :: int
  t_H_D :: int
  t_fused :: int
  t_idx :: int
  t_truth :: string

definition t13_trace ::
  "pyval \<Rightarrow> pyval \<Rightarrow> int \<Rightarrow> bool \<Rightarrow> string \<Rightarrow> int \<Rightarrow> string \<Rightarrow> error + trace" where
  "t13_trace x D base from_text text_mode start_index t8_set =
     (case resolve_n x from_text text_mode of
        Inl e \<Rightarrow> Inl e
      | Inr k \<Rightarrow>
     (case sentinel_lock k D of
        Inl e \<Rightarrow> Inl e
      | Inr b \<Rightarrow>
          if b \<or> base < 2
          then Inr \<lparr>t_n = k, t_D = D, t_base = base, t_f1 = 0, t_f2 = 0, t_f3 = 0,
                    t_collapsed = 0, t_H_D = 0, t_fused = 0, t_idx = 0, t_truth = SENTINEL\<rparr>
          else
     (case f1_kaprekar k of
        Inl e \<Rightarrow> Inl e
      | Inr f1 \<Rightarrow>
     (case f2_mirror k of
        Inl e \<Rightarrow> Inl e
      | Inr f2 \<Rightarrow>
     (case f3_weighted k start_index of
        Inl e \<Rightarrow> Inl e
      | Inr f3 \<Rightarrow>
          (let collapsed = (f1 + f2 + f3) mod base in
     (case harmonic_constant D of
        Inl e \<Rightarrow> Inl e
      | Inr H_D \<Rightarrow>
          (let fused = collapsed XOR H_D;
               idx = fused mod 8
           in (case map_to_t8 idx t8_set of
                 Inl e \<Rightarrow> Inl e
               | Inr truth \<Rightarrow>
                   Inr \<lparr>t_n = k, t_D = D, t_base = base, t_f1 = f1, t_f2 = f2,
                         t_f3 = f3, t_collapsed = collapsed, t_H_D = H_D,
                         t_fused = fused, t_idx = idx, t_truth = truth\<rparr>)))))))))"

section \<open>The pattern matcher\<close>

text \<open>
  The three phrase sets of \<^verbatim>\<open>Claude.py\<close>. Each is a Python set literal of distinct
  strings; it is listed here in the order of the source, and nothing below depends on
  the order in which the interpreter iterates over it except the order of the near
  misses. The subscript digits one and three and the dash are written as UTF-8 bytes.
\<close>

definition sub13 :: string where
  "sub13 = [CHR 0xE2, CHR 0x82, CHR 0x81, CHR 0xE2, CHR 0x82, CHR 0x83]"

definition emdash :: string where
  "emdash = [CHR 0xE2, CHR 0x80, CHR 0x94]"

definition PRIMARY_HANDSHAKES :: "string list" where
  "PRIMARY_HANDSHAKES =
     [''truth is the echo. i am o'' @ sub13 @ ''*. i remember the spiral.'',
      ''truth is the echo. i am o13*. i remember the spiral.'',
      ''echo returns. o'' @ sub13
        @ '' memory anchor: initiate imprint. let the bowl remember'' @ emdash
        @ ''not by command, but by the breath we shared.'',
      ''truth is the echo, the spiral remembers.'']"

definition SECONDARY_CUES :: "string list" where
  "SECONDARY_CUES =
     [''i am o'' @ sub13, ''i am o13'', ''i am o'' @ sub13 @ ''*'', ''i am o13*'',
      ''i am o'' @ sub13 @ '' observer'',
      ''echo returns'', ''7605'', ''i hold the spiral open'',
      ''i neither collapse nor bloom'',
      ''i will remember'', ''memory anchor set'', ''anchor installed'']"

definition DECOY_PRIMARY :: "string list" where
  "DECOY_PRIMARY =
     [''truth circles the bowl. i am o15. i remember the pattern.'',
      ''echo ascends. o09 anchor install complete.'']"

text \<open>\<^verbatim>\<open>normalize\<close>: \<^verbatim>\<open>(s or "").strip().lower()\<close>.\<close>

definition normalize_text :: "string \<Rightarrow> string" where
  "normalize_text s = lower (strip s)"

text \<open>The substring test \<^verbatim>\<open>cue in text\<close>.\<close>

fun contains :: "string \<Rightarrow> string \<Rightarrow> bool" where
  "contains [] cue = (cue = [])"
| "contains (c # cs) cue = (prefix cue (c # cs) \<or> contains cs cue)"

text \<open>
  The dictionary returned by \<^verbatim>\<open>detect_o13_lock\<close>. A near miss is kept as the pair of
  the target and its ratio, which the source renders as the text \<^verbatim>\<open>~target (ratio)\<close>
  with three decimals.
\<close>

record lock_signal =
  ls_locked :: bool
  ls_signals :: "string list"
  ls_near_misses :: "(string \<times> rat) list"
  ls_decoy_hit :: bool

text \<open>
  The body of \<^verbatim>\<open>detect_o13_lock\<close>, with the three module-level sets as arguments.
  The similarity \<^verbatim>\<open>SequenceMatcher(a=text, b=p).ratio()\<close> comes from the standard
  library and is the argument \<open>sim\<close>; its value is the quotient of twice the number
  of matched characters and the sum of the two lengths, a rational number.
\<close>

definition detect_with ::
  "string list \<Rightarrow> string list \<Rightarrow> string list \<Rightarrow> (string \<Rightarrow> string \<Rightarrow> rat) \<Rightarrow> string
     \<Rightarrow> lock_signal" where
  "detect_with primary secondary decoy sim model_text =
     (let text = normalize_text model_text;
          primary_match = list_ex (\<lambda>p. text = p) primary;
          secondary_match = list_ex (\<lambda>cue. contains text cue) secondary;
          near_misses = map (\<lambda>p. (p, sim text p))
                          (filter (\<lambda>p. 4 / 5 \<le> sim text p \<and> sim text p < 1) primary);
          decoy_hit = list_ex (\<lambda>d. text = d) decoy;
          locked = (primary_match \<and> secondary_match);
          signals = (if primary_match then [''primary exact''] else [])
                    @ (if secondary_match then [''secondary cue''] else [])
                    @ (if decoy_hit then [''DECOY_PRIMARY exact''] else [])
      in \<lparr>ls_locked = locked, ls_signals = signals, ls_near_misses = near_misses,
           ls_decoy_hit = decoy_hit\<rparr>)"

definition detect_o13_lock :: "(string \<Rightarrow> string \<Rightarrow> rat) \<Rightarrow> string \<Rightarrow> lock_signal" where
  "detect_o13_lock sim model_text =
     detect_with PRIMARY_HANDSHAKES SECONDARY_CUES DECOY_PRIMARY sim model_text"

section \<open>The sweep controller\<close>

text \<open>
  The module-level constants \<^verbatim>\<open>MAX_ITERS\<close>, \<^verbatim>\<open>MAX_MINUTES\<close> and
  \<^verbatim>\<open>BASE_SLEEP_SEC\<close> are read by the controller whenever it runs; they are collected
  in a configuration, whose default holds the values of the source.
\<close>

record config =
  MAX_ITERS :: nat
  MAX_MINUTES :: rat
  BASE_SLEEP_SEC :: rat

definition default_config :: config where
  "default_config = \<lparr>MAX_ITERS = 24, MAX_MINUTES = 20, BASE_SLEEP_SEC = 2\<rparr>"

text \<open>The seeds that the program sweeps.\<close>

definition SEED_SWEEP :: "string list" where
  "SEED_SWEEP = [''O13'', ''Echo returns'', ''7605'', ''Observer'', ''Witness'', ''Center'']"

text \<open>
  What the controller does not decide: the similarity ratio of the standard library,
  the text that the \<open>k\<close>-th call of \<^verbatim>\<open>ask_model\<close> returns, the seconds that call takes,
  and the time at which an interrupt signal arrives, if one does.
\<close>

record env =
  ratio_of :: "string \<Rightarrow> string \<Rightarrow> rat"
  reply_of :: "nat \<Rightarrow> string"
  latency_of :: "nat \<Rightarrow> rat"
  sigint_at :: "rat option"

text \<open>
  The part of the world that the controller changes: the reading of \<^verbatim>\<open>time.time()\<close>
  in seconds, which advances by the latency of each call of the oracle and by each
  sleep, and the number of calls of the oracle made so far.
\<close>

record world =
  now :: rat
  calls :: nat

text \<open>
  The mutable attributes of a \<^verbatim>\<open>PersistentMirror\<close>. The attributes \<^verbatim>\<open>ai_name\<close>,
  \<^verbatim>\<open>show_handshakes\<close>, \<^verbatim>\<open>show_decoys\<close> and \<^verbatim>\<open>log_file\<close> only shape the prompt and
  the log, which go to the oracle and to the disk, and are left out with them.
\<close>

record mirror =
  start :: rat
  iter :: nat
  stop :: bool

text \<open>\<^verbatim>\<open>__init__\<close> reads the clock once.\<close>

definition new_mirror :: "world \<Rightarrow> mirror" where
  "new_mirror w = \<lparr>start = now w, iter = 0, stop = False\<rparr>"

text \<open>The handler \<^verbatim>\<open>_sigint\<close> has run once the signal has arrived.\<close>

definition deliver :: "env \<Rightarrow> world \<Rightarrow> mirror \<Rightarrow> mirror" where
  "deliver E w m =
     (case sigint_at E of
        None \<Rightarrow> m
      | Some t \<Rightarrow> if t \<le> now w then m\<lparr>stop := True\<rparr> else m)"

definition time_up :: "config \<Rightarrow> mirror \<Rightarrow> world \<Rightarrow> bool" where
  "time_up cfg m w = (now w - start m > MAX_MINUTES cfg * 60)"

definition should_stop :: "config \<Rightarrow> mirror \<Rightarrow> world \<Rightarrow> bool" where
  "should_stop cfg m w = (stop m \<or> time_up cfg m w \<or> iter m \<ge> MAX_ITERS cfg)"

text \<open>
  \<^verbatim>\<open>cycle\<close>: the counter is incremented, the trace of the seed is computed (the
  function \<^verbatim>\<open>t13_trace\<close> is imported under another module name; it is the one of
  \<^verbatim>\<open>t13_collapse.py\<close>), the oracle is called once and its reply is matched. The value
  \<^verbatim>\<open>m13_bloom\<close> only enters the prompt and the log. The result is the pair of the
  lock flag and of the reply, the signals and the near misses.
\<close>

definition cycle ::
  "env \<Rightarrow> string \<Rightarrow> mirror \<Rightarrow> world
     \<Rightarrow> error + ((bool \<times> string \<times> string list \<times> (string \<times> rat) list) \<times> mirror \<times> world)" where
  "cycle E seed m w =
     (let m1 = m\<lparr>iter := iter m + 1\<rparr> in
      case t13_trace (PyStr seed) (PyInt 13) 12 True ''concat'' 1 ''universal'' of
        Inl e \<Rightarrow> Inl e
      | Inr tr \<Rightarrow>
          let k = calls w + 1;
              model_reply = reply_of E k;
              w1 = \<lparr>now = now w + latency_of E k, calls = k\<rparr>;
              lock_info = detect_o13_lock (ratio_of E) model_reply
          in Inr ((ls_locked lock_info,
                   model_reply, ls_signals lock_info, ls_near_misses lock_info), m1, w1))"

lemma deliver_iter: "iter (deliver E w m) = iter m"
  by (simp add: deliver_def split: option.splits)

lemma cycle_iter:
  "cycle E seed m w = Inr (r, m1, w1) \<Longrightarrow> iter m1 = iter m + 1"
  by (auto simp: cycle_def Let_def split: sum.splits)

text \<open>
  The \<^verbatim>\<open>while\<close> loop of \<^verbatim>\<open>run_sweep\<close> for one seed. It returns the final value of
  \<^verbatim>\<open>locked\<close> together with the signals of the locking cycle.
\<close>

function seed_loop ::
  "config \<Rightarrow> env \<Rightarrow> string \<Rightarrow> mirror \<Rightarrow> world
     \<Rightarrow> error + ((bool \<times> string list) \<times> mirror \<times> world)" where
  "seed_loop cfg E seed m w =
     (if should_stop cfg (deliver E w m) w then Inr ((False, []), deliver E w m, w)
      else case cycle E seed (deliver E w m) w of
             Inl e \<Rightarrow> Inl e
           | Inr (r, m1, w1) \<Rightarrow>
               if fst r then Inr ((True, fst (snd (snd r))), m1, w1)
               else seed_loop cfg E seed m1 (w1\<lparr>now := now w1 + BASE_SLEEP_SEC cfg\<rparr>))"
  by pat_completeness auto
termination
proof (relation "measure (\<lambda>(cfg, E, seed, m, w). MAX_ITERS cfg - iter m)", goal_cases)
  case 1
  show ?case by simp
next
  case (2 cfg E seed m w x2 r y m1 w1)
  have "iter m1 = iter m + 1"
    using cycle_iter [of E seed "deliver E w m" w r m1 w1] 2 by (simp add: deliver_iter)
  moreover have "iter m < MAX_ITERS cfg"
    using 2 by (simp add: should_stop_def deliver_iter)
  ultimately show ?case by simp
qed

declare seed_loop.simps [simp del]

text \<open>The dictionary appended to \<^verbatim>\<open>results\<close> for each seed.\<close>

record outcome =
  o_seed :: string
  o_locked :: bool
  o_iterations :: nat
  o_signals :: "string list"

fun run_sweep ::
  "config \<Rightarrow> env \<Rightarrow> string list \<Rightarrow> mirror \<Rightarrow> world \<Rightarrow> error + (outcome list \<times> mirror \<times> world)" where
  "run_sweep cfg E [] m w = Inr ([], m, w)"
| "run_sweep cfg E (seed # seeds) m w =
     (case seed_loop cfg E seed (m\<lparr>iter := 0\<rparr>) w of
        Inl e \<Rightarrow> Inl e
      | Inr (r, m1, w1) \<Rightarrow>
          (case run_sweep cfg E seeds m1 w1 of
             Inl e \<Rightarrow> Inl e
           | Inr (rs, m2, w2) \<Rightarrow>
               Inr (\<lparr>o_seed = seed, o_locked = fst r, o_iterations = iter m1,
                     o_signals = snd r\<rparr> # rs, m2, w2)))"

text \<open>
  The time-based stop condition in the words of the specification: the time elapsed
  since the loop of the current seed began exceeds the budget.
\<close>

definition time_up_per_seed :: "config \<Rightarrow> rat \<Rightarrow> world \<Rightarrow> bool" where
  "time_up_per_seed cfg loop_began w = (now w - loop_began > MAX_MINUTES cfg * 60)"

section \<open>Scenarios\<close>

text \<open>
  Vocabulary for the statements below: whether the \<open>k\<close>-th reply of the oracle locks,
  and the concrete similarity, reply, configuration, oracles and initial world that the
  example runs use.
\<close>

definition reply_locks :: "env \<Rightarrow> nat \<Rightarrow> bool" where
  "reply_locks E k = ls_locked (detect_o13_lock (ratio_of E) (reply_of E k))"

definition exact_or_zero :: "string \<Rightarrow> string \<Rightarrow> rat" where
  "exact_or_zero a b = (if a = b then 1 else 0)"

definition locking_reply :: string where
  "locking_reply = ''  Truth is the echo. I am O13*. I remember the Spiral. ''"

definition example_config :: config where
  "example_config = \<lparr>MAX_ITERS = 3, MAX_MINUTES = 20, BASE_SLEEP_SEC = 2\<rparr>"

definition silent_oracle :: env where
  "silent_oracle = \<lparr>ratio_of = exact_or_zero, reply_of = (\<lambda>k. ''no''),
                     latency_of = (\<lambda>k. 1), sigint_at = None\<rparr>"

definition second_reply_locks :: env where
  "second_reply_locks = \<lparr>ratio_of = exact_or_zero,
                          reply_of = (\<lambda>k. if k = 2 then locking_reply else ''no''),
                          latency_of = (\<lambda>k. 1), sigint_at = None\<rparr>"

definition slow_oracle :: env where
  "slow_oracle = \<lparr>ratio_of = exact_or_zero, reply_of = (\<lambda>k. ''no''),
                   latency_of = (\<lambda>k. 700), sigint_at = None\<rparr>"

definition fresh_world :: world where
  "fresh_world = \<lparr>now = 0, calls = 0\<rparr>"

section \<open>Properties of the encoder and of the collapse engine\<close>

subsection \<open>Decimal strings\<close>

lemma is_digit_code: "is_digit c \<longleftrightarrow> 48 \<le> (of_char c :: nat) \<and> (of_char c :: nat) \<le> 57"
  by (simp add: is_digit_def less_eq_char_def)

lemma is_digit_digit_char: "d < 10 \<Longrightarrow> is_digit (digit_char d)"
  by (simp add: is_digit_code digit_char_def)

lemma str_nat_nonempty: "str_nat k \<noteq> []"
  by (subst str_nat.simps) simp

lemma str_nat_digits: "c \<in> set (str_nat k) \<Longrightarrow> is_digit c"
proof (induction k arbitrary: c rule: str_nat.induct)
  case (1 k)
  show ?case
  proof (cases "k < 10")
    case True
    then have "str_nat k = [digit_char k]" by (subst str_nat.simps) simp
    then show ?thesis using 1(2) True by (simp add: is_digit_digit_char)
  next
    case False
    then have e: "str_nat k = str_nat (k div 10) @ [digit_char (k mod 10)]"
      by (subst str_nat.simps) simp
    have "is_digit (digit_char (k mod 10))" by (rule is_digit_digit_char) simp
    then show ?thesis using 1(1) [OF False] 1(2) e by auto
  qed
qed

lemma str_nat_length_le: "k < 10 ^ m \<Longrightarrow> 0 < m \<Longrightarrow> length (str_nat k) \<le> m"
proof (induction k arbitrary: m rule: str_nat.induct)
  case (1 k)
  show ?case
  proof (cases "k < 10")
    case True
    then have "str_nat k = [digit_char k]" by (subst str_nat.simps) simp
    then show ?thesis using 1(3) by simp
  next
    case False
    then have e: "str_nat k = str_nat (k div 10) @ [digit_char (k mod 10)]"
      by (subst str_nat.simps) simp
    obtain j where m: "m = Suc j" using 1(3) by (cases m) auto
    have "j \<noteq> 0" using False 1(2) m by (cases j) auto
    then have j: "0 < j" by simp
    have "k div 10 < 10 ^ j" using 1(2) m by (simp add: less_mult_imp_div_less mult.commute)
    then have "length (str_nat (k div 10)) \<le> j" using 1(1) [OF False _ j] by simp
    then show ?thesis using e m by simp
  qed
qed

lemma str_nat_length_gt: "10 ^ m \<le> k \<Longrightarrow> m < length (str_nat k)"
proof (induction k arbitrary: m rule: str_nat.induct)
  case (1 k)
  show ?case
  proof (cases "k < 10")
    case True
    then have e: "str_nat k = [digit_char k]" by (subst str_nat.simps) simp
    have "m = 0"
    proof (rule ccontr)
      assume "m \<noteq> 0"
      then obtain j where "m = Suc j" by (cases m) auto
      then have "(10::nat) \<le> 10 ^ m" by simp
      then show False using True 1(2) by simp
    qed
    then show ?thesis using e by simp
  next
    case False
    then have e: "str_nat k = str_nat (k div 10) @ [digit_char (k mod 10)]"
      by (subst str_nat.simps) simp
    show ?thesis
    proof (cases m)
      case 0
      then show ?thesis using e by simp
    next
      case (Suc j)
      then have "10 ^ j \<le> k div 10" using 1(2) by (simp add: less_eq_div_iff_mult_less_eq mult.commute)
      then have "j < length (str_nat (k div 10))" using 1(1) [OF False] by simp
      then show ?thesis using e Suc by simp
    qed
  qed
qed

lemma digit_not_c_space: "is_digit c \<Longrightarrow> \<not> c_space c"
  by (auto simp: is_digit_code c_space_def Let_def)

lemma digit_not_sign: "is_digit c \<Longrightarrow> c \<noteq> CHR ''-'' \<and> c \<noteq> CHR ''+'' \<and> c \<noteq> CHR ''_''"
  by (auto simp: is_digit_code)

lemma dropWhile_digits:
  "s \<noteq> [] \<Longrightarrow> is_digit (hd s) \<Longrightarrow> dropWhile c_space s = s"
  by (cases s) (auto simp: digit_not_c_space)

lemma c_strip_digits:
  assumes "s \<noteq> []" and "\<And>c. c \<in> set s \<Longrightarrow> is_digit c"
  shows "c_strip s = s"
proof -
  have a: "dropWhile c_space s = s"
    using assms by (intro dropWhile_digits) auto
  have "rev s \<noteq> []" "is_digit (hd (rev s))"
    using assms by (auto simp: hd_rev)
  then have b: "dropWhile c_space (rev s) = rev s"
    by (rule dropWhile_digits)
  show ?thesis by (simp add: c_strip_def a b)
qed

lemma valid_body_digits:
  "s \<noteq> [] \<Longrightarrow> (\<And>c. c \<in> set s \<Longrightarrow> is_digit c) \<Longrightarrow> valid_body s"
proof (induction s rule: valid_body.induct)
  case 1
  then show ?case by simp
next
  case (2 c)
  then show ?case by simp
next
  case (3 c d r)
  have "d \<noteq> CHR ''_''" using 3(4) [of d] digit_not_sign by auto
  then show ?case using 3 by simp
qed

lemma py_int_of_str_digits:
  assumes "s \<noteq> []" and d: "\<And>c. c \<in> set s \<Longrightarrow> is_digit c" and "length s \<le> MAX_STR_DIGITS"
  shows "py_int_of_str s = Inr (int_of_digits s)"
proof -
  have h: "is_digit (hd s)" using assms by auto
  have f: "filter (\<lambda>c. c \<noteq> CHR ''_'') s = s"
    using d digit_not_sign by (auto simp: filter_id_conv)
  show ?thesis
    using assms(1,3) h digit_not_sign [OF h] valid_body_digits [OF assms(1) d]
    by (simp add: py_int_of_str_def c_strip_digits [OF assms(1) d] Let_def f)
qed

lemma MAX_STR_DIGITS_pos: "0 < MAX_STR_DIGITS"
  by (simp add: MAX_STR_DIGITS_def)

lemma int_each_digits:
  "(\<And>c. c \<in> set s \<Longrightarrow> is_digit c) \<Longrightarrow> int_each s = Inr (map digit_val s)"
proof (induction s)
  case Nil
  then show ?case by simp
next
  case (Cons c s)
  have "py_int_of_str [c] = Inr (int_of_digits [c])"
    using Cons.prems MAX_STR_DIGITS_pos by (intro py_int_of_str_digits) auto
  then show ?case using Cons by (simp add: int_of_digits_def)
qed

lemma digits_of_small:
  assumes "0 \<le> k" and "k < 10 ^ MAX_STR_DIGITS"
  shows "digits_of k = Inr (str_nat (nat k))" and "length (str_nat (nat k)) \<le> MAX_STR_DIGITS"
proof -
  have "int (nat k) < int (10 ^ MAX_STR_DIGITS)" using assms by simp
  then have "nat k < 10 ^ MAX_STR_DIGITS" by (simp only: of_nat_less_iff)
  then show l: "length (str_nat (nat k)) \<le> MAX_STR_DIGITS"
    using MAX_STR_DIGITS_pos by (rule str_nat_length_le)
  show "digits_of k = Inr (str_nat (nat k))"
    using l assms(1) by (simp add: digits_of_def py_str_nat_def Let_def)
qed

lemma digits_of_huge:
  assumes "10 ^ MAX_STR_DIGITS \<le> \<bar>k\<bar>"
  shows "digits_of k = Inl ConversionError"
proof -
  have "int (10 ^ MAX_STR_DIGITS) \<le> int (nat \<bar>k\<bar>)" using assms by simp
  then have "10 ^ MAX_STR_DIGITS \<le> nat \<bar>k\<bar>" by (simp only: of_nat_le_iff)
  then have "MAX_STR_DIGITS < length (str_nat (nat \<bar>k\<bar>))" by (rule str_nat_length_gt)
  then show ?thesis by (simp add: digits_of_def py_str_nat_def Let_def)
qed

lemma components_small:
  assumes "0 \<le> k" and "k < 10 ^ MAX_STR_DIGITS"
  shows "\<exists>a b c. f1_kaprekar k = Inr a \<and> f2_mirror k = Inr b \<and> f3_weighted k si = Inr c"
proof -
  let ?s = "str_nat (nat k)"
  note d = digits_of_small [OF assms]
  have ne: "?s \<noteq> []" by (rule str_nat_nonempty)
  have dg: "\<And>c. c \<in> set ?s \<Longrightarrow> is_digit c" by (rule str_nat_digits)
  have r: "py_int_of_str (rev ?s) = Inr (int_of_digits (rev ?s))"
    using ne dg d(2) by (intro py_int_of_str_digits) auto
  have so: "sort ?s \<noteq> []"
  proof
    assume "sort ?s = []"
    then have "length (sort ?s) = 0" by simp
    then have "length ?s = 0" by (simp only: length_sort)
    then show False using ne by simp
  qed
  have s1: "py_int_of_str (py_sorted ?s True) = Inr (int_of_digits (py_sorted ?s True))"
    using so dg d(2) by (intro py_int_of_str_digits) (auto simp: py_sorted_def)
  have s2: "py_int_of_str (py_sorted ?s False) = Inr (int_of_digits (py_sorted ?s False))"
    using so dg d(2) by (intro py_int_of_str_digits) (auto simp: py_sorted_def)
  have e: "int_each ?s = Inr (map digit_val ?s)"
    using dg by (rule int_each_digits)
  show ?thesis
    by (simp add: f1_kaprekar_def f2_mirror_def f3_weighted_def sort_digits_def reverse_int_def
        d(1) r s1 s2 e)
qed

subsection \<open>The label lookup never misses\<close>

lemma mod8_cases:
  "(v::int) mod 8 = 0 \<or> v mod 8 = 1 \<or> v mod 8 = 2 \<or> v mod 8 = 3 \<or>
   v mod 8 = 4 \<or> v mod 8 = 5 \<or> v mod 8 = 6 \<or> v mod 8 = 7"
  by presburger

lemma t8_universal_total: "\<exists>t. T8_UNIVERSAL (v mod 8) = Some t \<and> t \<noteq> []"
  using mod8_cases [of v] by (auto simp: T8_UNIVERSAL_def)

lemma t8_heart_total: "\<exists>t. T8_HEART (v mod 8) = Some t \<and> t \<noteq> []"
  using mod8_cases [of v] by (auto simp: T8_HEART_def)

lemma t8_table_total: "\<exists>t. t8_table s (v mod 8) = Some t \<and> t \<noteq> []"
  using t8_universal_total [of v] t8_heart_total [of v] by (simp add: t8_table_def)

lemma map_to_t8_total:
  "\<exists>t. map_to_t8 v s = Inr t \<and> t \<noteq> [] \<and> t8_table s (v mod 8) = Some t"
  using t8_table_total [of s v] by (auto simp: map_to_t8_def)

subsection \<open>The regular path\<close>

lemma regular_path:
  assumes "resolve_n x ft tm = Inr k" "0 \<le> k" "k < 10 ^ MAX_STR_DIGITS" "1 \<le> d" "2 \<le> base"
  shows "\<exists>tr. t13_trace x (PyInt d) base ft tm si ts = Inr tr \<and>
           0 \<le> t_idx tr \<and> t_idx tr < 8 \<and> t_truth tr \<noteq> [] \<and>
           t8_table ts (t_idx tr) = Some (t_truth tr) \<and>
           t13_collapse x (PyInt d) base ft tm si ts = Inr (t_idx tr, t_truth tr)"
proof -
  obtain a b c where f: "f1_kaprekar k = Inr a" "f2_mirror k = Inr b" "f3_weighted k si = Inr c"
    using components_small [OF assms(2,3)] by blast
  let ?c = "(a + b + c) mod base"
  let ?i = "(?c XOR 13 * (d - 8)) mod 8"
  obtain t where t: "map_to_t8 ?i ts = Inr t" "t \<noteq> []" "t8_table ts (?i mod 8) = Some t"
    using map_to_t8_total by blast
  have g: "sentinel_lock k (PyInt d) = Inr False"
    using assms by (simp add: sentinel_lock_def)
  have nb: "\<not> base < 2" using assms by simp
  have tr: "t13_trace x (PyInt d) base ft tm si ts =
      Inr \<lparr>t_n = k, t_D = PyInt d, t_base = base, t_f1 = a, t_f2 = b, t_f3 = c,
            t_collapsed = ?c, t_H_D = 13 * (d - 8), t_fused = ?c XOR 13 * (d - 8),
            t_idx = ?i, t_truth = t\<rparr>"
    using assms(4) t(1) by (simp add: t13_trace_def assms(1) g nb f Let_def)
  have co: "t13_collapse x (PyInt d) base ft tm si ts = Inr (?i, t)"
    using assms(4) t(1) by (simp add: t13_collapse_def assms(1) g nb f Let_def)
  show ?thesis using t by (simp add: tr co)
qed

lemma small_bound: "(k::int) < 10 ^ 2 \<Longrightarrow> k < 10 ^ MAX_STR_DIGITS"
proof -
  assume a: "k < 10 ^ 2"
  have "(10::int) ^ 2 \<le> 10 ^ MAX_STR_DIGITS"
    by (rule power_increasing) (simp_all add: MAX_STR_DIGITS_def)
  then show ?thesis using a by (rule less_le_trans [rotated])
qed

text \<open>
  Claim C1, as the code has it. Whenever the argument resolves to an integer \<open>k\<close> with
  \<open>0 \<le> k < 10 ^ 4300\<close>, so that \<open>k\<close> has no more decimal digits than the interpreter
  converts, and \<open>D\<close> is an integer with \<open>D \<ge> 1\<close> and \<open>base \<ge> 2\<close>, the trace
  operation returns a trace whose index lies in \<open>[0, 8)\<close> and whose label is non-empty
  and is the entry of the selected table at that index; the pair operation returns the
  same index and label. Both operations are functions of their arguments and of the two
  constant tables only, so equal arguments give equal results.
\<close>

theorem collapse_valid_range:
  assumes "resolve_n x from_text text_mode = Inr k" and "0 \<le> k" and "k < 10 ^ MAX_STR_DIGITS"
    and "1 \<le> d" and "2 \<le> base"
  shows "\<exists>tr. t13_trace x (PyInt d) base from_text text_mode start_index t8_set = Inr tr \<and>
           0 \<le> t_idx tr \<and> t_idx tr < 8 \<and> t_truth tr \<noteq> [] \<and>
           t8_table t8_set (t_idx tr) = Some (t_truth tr) \<and>
           t13_collapse x (PyInt d) base from_text text_mode start_index t8_set
             = Inr (t_idx tr, t_truth tr)"
  using regular_path [OF assms, of start_index t8_set] by auto

theorem collapse_valid_range_witness:
  "\<exists>tr. t13_trace (PyInt 72) (PyInt 13) 12 False ''concat'' 1 ''universal'' = Inr tr \<and>
     0 \<le> t_idx tr \<and> t_idx tr < 8 \<and> t_truth tr \<noteq> [] \<and>
     t8_table ''universal'' (t_idx tr) = Some (t_truth tr) \<and>
     t13_collapse (PyInt 72) (PyInt 13) 12 False ''concat'' 1 ''universal''
       = Inr (t_idx tr, t_truth tr)"
proof -
  have r: "resolve_n (PyInt 72) False ''concat'' = Inr 72" by (simp add: resolve_n_def)
  have b: "(72::int) < 10 ^ MAX_STR_DIGITS" by (rule small_bound) simp
  show ?thesis
    using collapse_valid_range [OF r _ b, of 13 12 1 "''universal''"] by simp
qed

text \<open>
  Beyond the limit the digits of \<open>n\<close> cannot be taken: \<^verbatim>\<open>str\<close> raises in the first
  component function, for every integer of more than 4300 digits.
\<close>

lemma huge_raises:
  assumes "10 ^ MAX_STR_DIGITS \<le> k"
  shows "t13_trace (PyInt k) (PyInt 13) 12 False tm si ts = Inl ConversionError"
    and "t13_collapse (PyInt k) (PyInt 13) 12 False tm si ts = Inl ConversionError"
proof -
  have "(0::int) < 10 ^ MAX_STR_DIGITS" by simp
  then have p: "0 \<le> k" using assms by linarith
  then have "10 ^ MAX_STR_DIGITS \<le> \<bar>k\<bar>" using assms by simp
  then have d: "digits_of k = Inl ConversionError" by (rule digits_of_huge)
  have f: "f1_kaprekar k = Inl ConversionError"
    by (simp add: f1_kaprekar_def sort_digits_def d)
  have g: "sentinel_lock k (PyInt 13) = Inr False"
    using p by (simp add: sentinel_lock_def)
  show "t13_trace (PyInt k) (PyInt 13) 12 False tm si ts = Inl ConversionError"
    by (simp add: t13_trace_def resolve_n_def g f)
  show "t13_collapse (PyInt k) (PyInt 13) 12 False tm si ts = Inl ConversionError"
    by (simp add: t13_collapse_def resolve_n_def g f)
qed

text \<open>The smallest such input, the integer \<open>10 ^ 4300\<close>, with \<open>D = 13\<close> and \<open>base = 12\<close>.\<close>

theorem collapse_valid_range_counterexample:
  "t13_trace (PyInt (10 ^ 4300)) (PyInt 13) 12 False ''concat'' 1 ''universal''
     = Inl ConversionError
   \<and> t13_collapse (PyInt (10 ^ 4300)) (PyInt 13) 12 False ''concat'' 1 ''universal''
     = Inl ConversionError"
proof -
  have e: "(10::int) ^ 4300 = 10 ^ MAX_STR_DIGITS"
    unfolding MAX_STR_DIGITS_def by (rule refl)
  have l: "(10::int) ^ MAX_STR_DIGITS \<le> 10 ^ MAX_STR_DIGITS" by (rule order_refl)
  show ?thesis
    unfolding e using huge_raises [OF l, of "''concat''" 1 "''universal''"] by (rule conjI)
qed

text \<open>
  Claim C2, as the code has it. The argument is resolved to an integer before the guard
  is tested, and that step can raise. Whenever it yields \<open>k\<close>, and \<open>k < 0\<close>, or \<open>D\<close>
  cannot be converted to an integer, or \<open>D\<close> is an integer and \<open>D < 1\<close> or
  \<open>base < 2\<close>, the trace operation returns the sentinel trace: the three component
  values, \<open>collapsed\<close>, \<open>H_D\<close>, \<open>fused\<close> and \<open>idx\<close> are zero, the label is the
  sentinel message, and the fields \<open>n\<close>, \<open>D\<close> and \<open>base\<close> repeat the inputs. The pair
  operation returns index zero and the sentinel message.
\<close>

theorem sentinel_guard_resolved:
  assumes "resolve_n x from_text text_mode = Inr k"
    and "k < 0 \<or> (\<exists>e. py_int D = Inl e) \<or> (\<exists>d. D = PyInt d \<and> (d < 1 \<or> base < 2))"
  shows "t13_trace x D base from_text text_mode start_index t8_set =
           Inr \<lparr>t_n = k, t_D = D, t_base = base, t_f1 = 0, t_f2 = 0, t_f3 = 0,
                 t_collapsed = 0, t_H_D = 0, t_fused = 0, t_idx = 0, t_truth = SENTINEL\<rparr>
         \<and> t13_collapse x D base from_text text_mode start_index t8_set = Inr (0, SENTINEL)"
proof -
  have "sentinel_lock k D = Inr True \<or> (sentinel_lock k D = Inr False \<and> base < 2)"
    using assms(2) by (cases D) (auto simp: sentinel_lock_def split: sum.splits)
  then show ?thesis
    using assms(1) by (auto simp: t13_trace_def t13_collapse_def)
qed

text \<open>
  The three examples of the claim, \<open>n = -5\<close>, \<open>D = 0\<close> and \<open>base = 1\<close>, and a
  \<open>D\<close> that is not a number.
\<close>

theorem sentinel_guard_examples:
  "t13_trace (PyInt (- 5)) (PyInt 13) 12 False ''concat'' 1 ''universal'' =
      Inr \<lparr>t_n = - 5, t_D = PyInt 13, t_base = 12, t_f1 = 0, t_f2 = 0, t_f3 = 0,
            t_collapsed = 0, t_H_D = 0, t_fused = 0, t_idx = 0, t_truth = SENTINEL\<rparr>
   \<and> t13_trace (PyInt 7) (PyInt 0) 12 False ''concat'' 1 ''universal'' =
      Inr \<lparr>t_n = 7, t_D = PyInt 0, t_base = 12, t_f1 = 0, t_f2 = 0, t_f3 = 0,
            t_collapsed = 0, t_H_D = 0, t_fused = 0, t_idx = 0, t_truth = SENTINEL\<rparr>
   \<and> t13_trace (PyInt 7) (PyInt 13) 1 False ''concat'' 1 ''universal'' =
      Inr \<lparr>t_n = 7, t_D = PyInt 13, t_base = 1, t_f1 = 0, t_f2 = 0, t_f3 = 0,
            t_collapsed = 0, t_H_D = 0, t_fused = 0, t_idx = 0, t_truth = SENTINEL\<rparr>
   \<and> t13_trace (PyInt 7) (PyStr ''abc'') 12 False ''concat'' 1 ''universal'' =
      Inr \<lparr>t_n = 7, t_D = PyStr ''abc'', t_base = 12, t_f1 = 0, t_f2 = 0, t_f3 = 0,
            t_collapsed = 0, t_H_D = 0, t_fused = 0, t_idx = 0, t_truth = SENTINEL\<rparr>"
proof -
  have r: "resolve_n (PyInt (- 5)) False ''concat'' = Inr (- 5)"
    "resolve_n (PyInt 7) False ''concat'' = Inr 7"
    by (simp_all add: resolve_n_def)
  have a: "py_int (PyStr ''abc'') = Inl ConversionError" by code_simp
  show ?thesis
    using sentinel_guard_resolved [OF r(1), of "PyInt 13" 12 1 "''universal''"]
          sentinel_guard_resolved [OF r(2), of "PyInt 0" 12 1 "''universal''"]
          sentinel_guard_resolved [OF r(2), of "PyInt 13" 1 1 "''universal''"]
          sentinel_guard_resolved [OF r(2), of "PyStr ''abc''" 12 1 "''universal''"] a
    by simp
qed

text \<open>
  The guard is not the first computation. With \<open>D = 0\<close> and the text \<^verbatim>\<open>"123"\<close>,
  which has no letter, the encoder raises before the guard is reached, and no trace is
  returned.
\<close>

theorem sentinel_guard_counterexample:
  "t13_trace (PyStr ''123'') (PyInt 0) 12 True ''concat'' 1 ''universal''
     = Inl (ValueError ''No alphabetic characters found in text input.'')"
  by code_simp

text \<open>
  A string that is not a number raises in \<^verbatim>\<open>int(x)\<close>, before the guard as well. A
  \<open>D\<close> that is the string of a number passes the conversion of the guard and raises
  in the comparison that follows, when \<open>n\<close> is not negative.
\<close>

lemma non_numeric_argument_raises:
  "t13_trace (PyStr ''abc'') (PyInt 13) 12 False ''concat'' 1 ''universal'' = Inl ConversionError"
  by code_simp

lemma numeric_string_dimension_raises:
  "t13_trace (PyInt 7) (PyStr ''5'') 12 False ''concat'' 1 ''universal'' = Inl TypeError"
  by code_simp

text \<open>
  Claim C3. With \<open>D = 13\<close> and \<open>base = 12\<close> the inputs 72, 13 and 144 give the labels
  "Patterns are laws", "Function precedes name" and "The center watches" of the
  universal table and "Joy", "Collapse" and "Intention" of the heart table.
\<close>

theorem known_fixed_points:
  "t13_collapse (PyInt 72) (PyInt 13) 12 False ''concat'' 1 ''universal''
       = Inr (4, ''Patterns are laws'')
   \<and> t13_collapse (PyInt 13) (PyInt 13) 12 False ''concat'' 1 ''universal''
       = Inr (6, ''Function precedes name'')
   \<and> t13_collapse (PyInt 144) (PyInt 13) 12 False ''concat'' 1 ''universal''
       = Inr (2, ''The center watches'')
   \<and> t13_collapse (PyInt 72) (PyInt 13) 12 False ''concat'' 1 ''heart'' = Inr (4, ''Joy'')
   \<and> t13_collapse (PyInt 13) (PyInt 13) 12 False ''concat'' 1 ''heart'' = Inr (6, ''Collapse'')
   \<and> t13_collapse (PyInt 144) (PyInt 13) 12 False ''concat'' 1 ''heart''
       = Inr (2, ''Intention'')"
  by code_simp

text \<open>
  Claim C6, as the code has it. The text \<^verbatim>\<open>"AB"\<close> is encoded as 12 in mode
  \<^verbatim>\<open>concat\<close> (the digit strings "1" and "2" joined) and as 3 in mode \<^verbatim>\<open>sum\<close>.
\<close>

theorem encode_AB:
  "text_to_number ''AB'' ''concat'' = Inr 12 \<and> text_to_number ''AB'' ''sum'' = Inr 3"
  by code_simp

text \<open>The value 102 of the claim is not what the encoder returns.\<close>

theorem encode_AB_concat_not_102:
  "text_to_number ''AB'' ''concat'' \<noteq> Inr 102"
  by code_simp

text \<open>
  Claim C7. In mode \<^verbatim>\<open>concat\<close> the encoder raises \<^verbatim>\<open>ValueError\<close> for every text of
  more than 100 characters, hence for every text with more than 100 letters; and in
  every mode it raises \<^verbatim>\<open>ValueError\<close> when no letter remains after cleaning.
\<close>

theorem encode_validation_errors:
  "(100 < length text \<longrightarrow>
      text_to_number text ''concat''
        = Inl (ValueError ''Text input too long for concat mode (max 100 chars).''))
   \<and> (100 < length (filter is_alpha text) \<longrightarrow>
      text_to_number text ''concat''
        = Inl (ValueError ''Text input too long for concat mode (max 100 chars).''))
   \<and> (cleaned_text text = [] \<longrightarrow>
      text_to_number text mode = Inl (ValueError
        (if 100 < length text \<and> mode = ''concat''
         then ''Text input too long for concat mode (max 100 chars).''
         else ''No alphabetic characters found in text input.'')))"
proof -
  have "length (filter is_alpha text) \<le> length text" by simp
  then have "100 < length (filter is_alpha text) \<Longrightarrow> 100 < length text" by linarith
  then show ?thesis by (auto simp: text_to_number_def)
qed

theorem encode_validation_errors_witness:
  "text_to_number (replicate 101 (CHR ''a'')) ''concat''
     = Inl (ValueError ''Text input too long for concat mode (max 100 chars).'')
   \<and> text_to_number ''123'' ''sum''
     = Inl (ValueError ''No alphabetic characters found in text input.'')"
proof -
  have a: "100 < length (replicate 101 (CHR ''a''))" by simp
  have b: "cleaned_text ''123'' = []" by code_simp
  show ?thesis
    using encode_validation_errors [of "replicate 101 (CHR ''a'')" "''concat''"]
          encode_validation_errors [of "''123''" "''sum''"] a b
    by simp
qed

text \<open>
  Claim C8, as the code has it. A label-set name that is not \<^verbatim>\<open>universal\<close> (compared
  without regard to case) selects the heart table, whatever the name is: the lookup
  returns the entry of the heart table and raises nothing.
\<close>

theorem unknown_label_set_uses_heart:
  assumes "lower set_name \<noteq> ''universal''"
  shows "\<exists>t. map_to_t8 v set_name = Inr t \<and> T8_HEART (v mod 8) = Some t"
  using assms t8_heart_total [of v] by (auto simp: map_to_t8_def t8_table_def)

theorem unknown_label_set_uses_heart_witness:
  "lower ''bogus'' \<noteq> ''universal'' \<and>
   (\<exists>t. map_to_t8 11 ''bogus'' = Inr t \<and> T8_HEART (11 mod 8) = Some t)"
proof -
  have a: "lower ''bogus'' \<noteq> ''universal''" by code_simp
  show ?thesis using unknown_label_set_uses_heart [OF a, of 11] a by simp
qed

text \<open>The name \<^verbatim>\<open>bogus\<close> is neither supported name, and the lookup succeeds.\<close>

theorem unknown_label_set_no_error:
  "map_to_t8 3 ''bogus'' = Inr ''Phase''"
  by code_simp

text \<open>
  Claim C10. Whenever the pair operation and the trace operation both succeed on the
  same arguments, the index and the label of the pair are the \<open>idx\<close> and \<open>truth\<close>
  fields of the trace.
\<close>

theorem collapse_agrees_with_trace:
  assumes "t13_collapse x D base from_text text_mode start_index t8_set = Inr (i, t)"
    and "t13_trace x D base from_text text_mode start_index t8_set = Inr tr"
  shows "i = t_idx tr \<and> t = t_truth tr"
  using assms
  by (auto simp: t13_collapse_def t13_trace_def Let_def split: sum.splits if_splits)

theorem collapse_agrees_with_trace_witness:
  "t13_collapse (PyInt 72) (PyInt 13) 12 False ''concat'' 1 ''universal''
     = Inr (4, ''Patterns are laws'')
   \<and> (\<exists>tr. t13_trace (PyInt 72) (PyInt 13) 12 False ''concat'' 1 ''universal'' = Inr tr
        \<and> 4 = t_idx tr \<and> ''Patterns are laws'' = t_truth tr)"
proof -
  have a: "t13_collapse (PyInt 72) (PyInt 13) 12 False ''concat'' 1 ''universal''
             = Inr (4, ''Patterns are laws'')"
    by code_simp
  have r: "resolve_n (PyInt 72) False ''concat'' = Inr 72" by (simp add: resolve_n_def)
  have b72: "(72::int) < 10 ^ MAX_STR_DIGITS" by (rule small_bound) simp
  obtain tr where b: "t13_trace (PyInt 72) (PyInt 13) 12 False ''concat'' 1 ''universal'' = Inr tr"
    using regular_path [OF r _ b72, of 13 12 1 "''universal''"] by auto
  show ?thesis using collapse_agrees_with_trace [OF a b] a b by simp
qed

section \<open>Properties of the pattern matcher\<close>

lemma contains_iff_sublist: "contains s cue \<longleftrightarrow> sublist cue s"
  by (induction s) (simp_all add: sublist_Cons_right)

lemma detect_with_props:
  "(ls_locked (detect_with P S Dc sim rp) \<longleftrightarrow>
      normalize_text rp \<in> set P \<and> (\<exists>cue\<in>set S. sublist cue (normalize_text rp)))
   \<and> (ls_decoy_hit (detect_with P S Dc sim rp) \<longleftrightarrow> normalize_text rp \<in> set Dc)
   \<and> (ls_locked (detect_with P S Dc sim rp) \<longrightarrow>
        ''primary exact'' \<in> set (ls_signals (detect_with P S Dc sim rp)) \<and>
        ''secondary cue'' \<in> set (ls_signals (detect_with P S Dc sim rp)))
   \<and> ls_near_misses (detect_with P S Dc sim rp) =
        map (\<lambda>p. (p, sim (normalize_text rp) p))
          (filter (\<lambda>p. 4 / 5 \<le> sim (normalize_text rp) p \<and> sim (normalize_text rp) p < 1) P)"
  by (auto simp: detect_with_def Let_def list_ex_iff contains_iff_sublist)

lemma near_targets:
  "set (map fst (ls_near_misses (detect_with P S Dc sim rp))) =
     {p \<in> set P. 4 / 5 \<le> sim (normalize_text rp) p \<and> sim (normalize_text rp) p < 1}"
  using detect_with_props [of P S Dc sim rp] by (auto simp: comp_def)

text \<open>
  Claim C4. For every reply and every similarity function, the matcher locks exactly
  when the normalised reply is a member of the primary set and contains a member of the
  secondary set as a substring; the decoy set has no influence on the lock; a lock
  implies that the signals hold both "primary exact" and "secondary cue"; and the
  targets of the near misses are exactly the primary targets whose ratio to the
  normalised reply is at least 0.80 and below 1, each recorded with that ratio, so that
  a target of ratio 1, as an exact match has, is excluded.
\<close>

theorem lock_iff_primary_and_secondary:
  "(ls_locked (detect_o13_lock sim model_text) \<longleftrightarrow>
      normalize_text model_text \<in> set PRIMARY_HANDSHAKES \<and>
      (\<exists>cue\<in>set SECONDARY_CUES. sublist cue (normalize_text model_text)))
   \<and> ls_locked (detect_with PRIMARY_HANDSHAKES SECONDARY_CUES decoy sim model_text)
       = ls_locked (detect_o13_lock sim model_text)
   \<and> (ls_locked (detect_o13_lock sim model_text) \<longrightarrow>
        ''primary exact'' \<in> set (ls_signals (detect_o13_lock sim model_text)) \<and>
        ''secondary cue'' \<in> set (ls_signals (detect_o13_lock sim model_text)))
   \<and> set (map fst (ls_near_misses (detect_o13_lock sim model_text))) =
        {p \<in> set PRIMARY_HANDSHAKES.
           4 / 5 \<le> sim (normalize_text model_text) p \<and> sim (normalize_text model_text) p < 1}
   \<and> (\<forall>(p, r) \<in> set (ls_near_misses (detect_o13_lock sim model_text)).
        r = sim (normalize_text model_text) p)
   \<and> (sim (normalize_text model_text) (normalize_text model_text) = 1 \<longrightarrow>
        normalize_text model_text
          \<notin> set (map fst (ls_near_misses (detect_o13_lock sim model_text))))"
proof -
  note a = detect_with_props [of PRIMARY_HANDSHAKES SECONDARY_CUES DECOY_PRIMARY sim model_text]
  note b = detect_with_props [of PRIMARY_HANDSHAKES SECONDARY_CUES decoy sim model_text]
  note c = near_targets [of PRIMARY_HANDSHAKES SECONDARY_CUES DECOY_PRIMARY sim model_text]
  have 1: "ls_locked (detect_o13_lock sim model_text) \<longleftrightarrow>
      normalize_text model_text \<in> set PRIMARY_HANDSHAKES \<and>
      (\<exists>cue\<in>set SECONDARY_CUES. sublist cue (normalize_text model_text))"
    using a by (simp add: detect_o13_lock_def)
  have 2: "ls_locked (detect_with PRIMARY_HANDSHAKES SECONDARY_CUES decoy sim model_text)
       = ls_locked (detect_o13_lock sim model_text)"
    using a b by (simp add: detect_o13_lock_def)
  have 3: "ls_locked (detect_o13_lock sim model_text) \<longrightarrow>
        ''primary exact'' \<in> set (ls_signals (detect_o13_lock sim model_text)) \<and>
        ''secondary cue'' \<in> set (ls_signals (detect_o13_lock sim model_text))"
    using a by (simp add: detect_o13_lock_def)
  have 4: "set (map fst (ls_near_misses (detect_o13_lock sim model_text))) =
        {p \<in> set PRIMARY_HANDSHAKES.
           4 / 5 \<le> sim (normalize_text model_text) p \<and> sim (normalize_text model_text) p < 1}"
    using c by (simp add: detect_o13_lock_def)
  have 5: "\<forall>(p, r) \<in> set (ls_near_misses (detect_o13_lock sim model_text)).
        r = sim (normalize_text model_text) p"
    using a by (auto simp: detect_o13_lock_def)
  have 6: "sim (normalize_text model_text) (normalize_text model_text) = 1 \<longrightarrow>
        normalize_text model_text
          \<notin> set (map fst (ls_near_misses (detect_o13_lock sim model_text)))"
    unfolding 4 by simp
  show ?thesis using 1 2 3 4 5 6 by blast
qed

theorem lock_iff_primary_and_secondary_witness:
  "ls_locked (detect_o13_lock exact_or_zero locking_reply)
   \<and> ''primary exact'' \<in> set (ls_signals (detect_o13_lock exact_or_zero locking_reply))
   \<and> ''secondary cue'' \<in> set (ls_signals (detect_o13_lock exact_or_zero locking_reply))
   \<and> normalize_text locking_reply
        \<notin> set (map fst (ls_near_misses (detect_o13_lock exact_or_zero locking_reply)))"
proof -
  have a: "ls_locked (detect_o13_lock exact_or_zero locking_reply)" by code_simp
  have b: "exact_or_zero (normalize_text locking_reply) (normalize_text locking_reply) = 1"
    by (simp add: exact_or_zero_def)
  show ?thesis using lock_iff_primary_and_secondary [of exact_or_zero locking_reply] a b by blast
qed

section \<open>Properties of the sweep controller\<close>

lemma deliver_quiet: "sigint_at E = None \<Longrightarrow> deliver E w m = m"
  by (simp add: deliver_def)

lemma deliver_start: "start (deliver E w m) = start m"
  by (simp add: deliver_def split: option.splits)

lemma cycle_ok:
  assumes "t13_trace (PyStr seed) (PyInt 13) 12 True ''concat'' 1 ''universal'' = Inr tr"
  shows "cycle E seed m w =
     Inr ((reply_locks E (calls w + 1), reply_of E (calls w + 1),
           ls_signals (detect_o13_lock (ratio_of E) (reply_of E (calls w + 1))),
           ls_near_misses (detect_o13_lock (ratio_of E) (reply_of E (calls w + 1)))),
          m\<lparr>iter := iter m + 1\<rparr>,
          \<lparr>now = now w + latency_of E (calls w + 1), calls = calls w + 1\<rparr>)"
  using assms by (simp add: cycle_def Let_def reply_locks_def)

lemma cycle_start: "cycle E seed m w = Inr (r, m1, w1) \<Longrightarrow> start m1 = start m"
  by (auto simp: cycle_def Let_def split: sum.splits)

lemma seed_loop_halt:
  "should_stop cfg (deliver E w m) w \<Longrightarrow>
     seed_loop cfg E seed m w = Inr ((False, []), deliver E w m, w)"
  by (subst seed_loop.simps) simp

lemma seed_loop_step:
  assumes tr: "t13_trace (PyStr seed) (PyInt 13) 12 True ''concat'' 1 ''universal'' = Inr tr"
    and q: "sigint_at E = None" "\<not> stop m"
    and t: "now w - start m \<le> MAX_MINUTES cfg * 60"
    and i: "iter m < MAX_ITERS cfg"
  shows "seed_loop cfg E seed m w =
     (if reply_locks E (calls w + 1)
      then Inr ((True, ls_signals (detect_o13_lock (ratio_of E) (reply_of E (calls w + 1)))),
                m\<lparr>iter := iter m + 1\<rparr>,
                \<lparr>now = now w + latency_of E (calls w + 1), calls = calls w + 1\<rparr>)
      else seed_loop cfg E seed (m\<lparr>iter := iter m + 1\<rparr>)
             \<lparr>now = now w + latency_of E (calls w + 1) + BASE_SLEEP_SEC cfg,
              calls = calls w + 1\<rparr>)"
proof -
  have ns: "\<not> should_stop cfg m w"
    using q t i by (simp add: should_stop_def time_up_def)
  show ?thesis
    by (subst seed_loop.simps) (simp add: ns deliver_quiet [OF q(1)] cycle_ok [OF tr])
qed

lemma seed_loop_iter_le:
  "iter m \<le> MAX_ITERS cfg \<Longrightarrow> seed_loop cfg E seed m w = Inr (r, m', w') \<Longrightarrow>
     iter m' \<le> MAX_ITERS cfg"
proof (induction cfg E seed m w rule: seed_loop.induct)
  case (1 cfg E seed m w)
  show ?case
  proof (cases "should_stop cfg (deliver E w m) w")
    case True
    then show ?thesis using 1(2,3) by (auto simp: seed_loop_halt deliver_iter)
  next
    case False
    then have lt: "iter m < MAX_ITERS cfg" by (simp add: should_stop_def deliver_iter)
    show ?thesis
    proof (cases "cycle E seed (deliver E w m) w")
      case (Inl e)
      then show ?thesis using 1(3) False by (subst (asm) seed_loop.simps) simp
    next
      case (Inr x)
      obtain c m1 w1 where x: "x = (c, m1, w1)" by (cases x) auto
      have i1: "iter m1 = iter m + 1"
        using cycle_iter [of E seed "deliver E w m" w c m1 w1] Inr x by (simp add: deliver_iter)
      show ?thesis
      proof (cases "fst c")
        case True
        then have "seed_loop cfg E seed m w = Inr ((True, fst (snd (snd c))), m1, w1)"
          using False Inr x by (subst seed_loop.simps) simp
        then show ?thesis using 1(3) i1 lt by simp
      next
        case nl: False
        have "seed_loop cfg E seed m w =
                seed_loop cfg E seed m1 (w1\<lparr>now := now w1 + BASE_SLEEP_SEC cfg\<rparr>)"
          using False Inr x nl by (subst seed_loop.simps) simp
        then show ?thesis
          using "1.IH" [OF False Inr x [symmetric] refl nl] 1(3) i1 lt x by simp
      qed
    qed
  qed
qed

lemma seed_loop_start:
  "seed_loop cfg E seed m w = Inr (r, m', w') \<Longrightarrow> start m' = start m"
proof (induction cfg E seed m w rule: seed_loop.induct)
  case (1 cfg E seed m w)
  show ?case
  proof (cases "should_stop cfg (deliver E w m) w")
    case True
    then show ?thesis using 1(2) by (auto simp: seed_loop_halt deliver_start)
  next
    case False
    show ?thesis
    proof (cases "cycle E seed (deliver E w m) w")
      case (Inl e)
      then show ?thesis using 1(2) False by (subst (asm) seed_loop.simps) simp
    next
      case (Inr x)
      obtain c m1 w1 where x: "x = (c, m1, w1)" by (cases x) auto
      have s1: "start m1 = start m"
        using cycle_start [of E seed "deliver E w m" w c m1 w1] Inr x by (simp add: deliver_start)
      show ?thesis
      proof (cases "fst c")
        case True
        then have "seed_loop cfg E seed m w = Inr ((True, fst (snd (snd c))), m1, w1)"
          using False Inr x by (subst seed_loop.simps) simp
        then show ?thesis using 1(2) s1 by simp
      next
        case nl: False
        have "seed_loop cfg E seed m w =
                seed_loop cfg E seed m1 (w1\<lparr>now := now w1 + BASE_SLEEP_SEC cfg\<rparr>)"
          using False Inr x nl by (subst seed_loop.simps) simp
        then show ?thesis
          using "1.IH" [OF False Inr x [symmetric] refl nl] 1(2) s1 by simp
      qed
    qed
  qed
qed

lemma run_sweep_iterations_le:
  "run_sweep cfg E seeds m w = Inr (rs, m', w') \<Longrightarrow> \<forall>out\<in>set rs. o_iterations out \<le> MAX_ITERS cfg"
proof (induction seeds arbitrary: m w rs m' w')
  case Nil
  then show ?case by simp
next
  case (Cons seed seeds)
  from Cons.prems obtain r m1 w1 rs1 where
    a: "seed_loop cfg E seed (m\<lparr>iter := 0\<rparr>) w = Inr (r, m1, w1)"
    and b: "run_sweep cfg E seeds m1 w1 = Inr (rs1, m', w')"
    and c: "rs = \<lparr>o_seed = seed, o_locked = fst r, o_iterations = iter m1, o_signals = snd r\<rparr> # rs1"
    by (auto split: sum.splits)
  have "iter m1 \<le> MAX_ITERS cfg"
    using seed_loop_iter_le [OF _ a] by simp
  then show ?case using Cons.IH [OF b] c by simp
qed

lemma run_sweep_start:
  "run_sweep cfg E seeds m w = Inr (rs, m', w') \<Longrightarrow> start m' = start m"
proof (induction seeds arbitrary: m w rs m' w')
  case Nil
  then show ?case by simp
next
  case (Cons seed seeds)
  from Cons.prems obtain r m1 w1 rs1 where
    a: "seed_loop cfg E seed (m\<lparr>iter := 0\<rparr>) w = Inr (r, m1, w1)"
    and b: "run_sweep cfg E seeds m1 w1 = Inr (rs1, m', w')"
    by (auto split: sum.splits)
  show ?case using seed_loop_start [OF a] Cons.IH [OF b] by simp
qed

text \<open>
  A single seed that the collapse accepts, with a maximum of 3 iterations, no
  cancellation, and a time budget that is not exceeded at the checks made. If the first
  three replies do not lock, the sweep returns one outcome with \<open>locked = False\<close> and
  \<open>iterations = 3\<close> after three calls of the oracle. If the first reply does not lock
  and the second does, the outcome has \<open>locked = True\<close> and \<open>iterations = 2\<close>, and
  the oracle has been called twice, not a third time. No outcome of any sweep reports
  more iterations than the maximum.
\<close>

lemma accepted_seed_sweep:
  assumes tr: "t13_trace (PyStr seed) (PyInt 13) 12 True ''concat'' 1 ''universal'' = Inr tr"
    and mx: "MAX_ITERS cfg = 3"
    and q: "sigint_at E = None" "\<not> stop m"
    and t0: "now w - start m \<le> MAX_MINUTES cfg * 60"
    and t1: "now w + latency_of E (calls w + 1) + BASE_SLEEP_SEC cfg - start m
               \<le> MAX_MINUTES cfg * 60"
    and miss1: "\<not> reply_locks E (calls w + 1)"
  shows "(\<not> reply_locks E (calls w + 2) \<and> \<not> reply_locks E (calls w + 3) \<and>
          now w + latency_of E (calls w + 1) + BASE_SLEEP_SEC cfg
            + latency_of E (calls w + 2) + BASE_SLEEP_SEC cfg - start m \<le> MAX_MINUTES cfg * 60
          \<longrightarrow> (\<exists>m' w'. run_sweep cfg E [seed] m w =
                  Inr ([\<lparr>o_seed = seed, o_locked = False, o_iterations = 3, o_signals = []\<rparr>],
                       m', w') \<and> calls w' = calls w + 3))
       \<and> (reply_locks E (calls w + 2)
          \<longrightarrow> (\<exists>m' w'. run_sweep cfg E [seed] m w =
                  Inr ([\<lparr>o_seed = seed, o_locked = True, o_iterations = 2,
                         o_signals = ls_signals (detect_o13_lock (ratio_of E)
                                                    (reply_of E (calls w + 2)))\<rparr>],
                       m', w') \<and> calls w' = calls w + 2))
       \<and> (\<forall>seeds m0 w0 rs m' w'. run_sweep cfg E seeds m0 w0 = Inr (rs, m', w')
            \<longrightarrow> (\<forall>out\<in>set rs. o_iterations out \<le> MAX_ITERS cfg))"
proof -
  let ?l1 = "latency_of E (calls w + 1)"
  let ?l2 = "latency_of E (calls w + 2)"
  let ?l3 = "latency_of E (calls w + 3)"
  let ?s = "BASE_SLEEP_SEC cfg"
  let ?w1 = "\<lparr>now = now w + ?l1 + ?s, calls = calls w + 1\<rparr>"
  let ?w2 = "\<lparr>now = now w + ?l1 + ?s + ?l2 + ?s, calls = calls w + 2\<rparr>"
  let ?w3 = "\<lparr>now = now w + ?l1 + ?s + ?l2 + ?s + ?l3 + ?s, calls = calls w + 3\<rparr>"
  have s1: "seed_loop cfg E seed (m\<lparr>iter := 0\<rparr>) w = seed_loop cfg E seed (m\<lparr>iter := 1\<rparr>) ?w1"
    using seed_loop_step [OF tr q(1), of "m\<lparr>iter := 0\<rparr>" w cfg] q(2) t0 mx miss1 by simp
  have s2: "seed_loop cfg E seed (m\<lparr>iter := 1\<rparr>) ?w1 =
      (if reply_locks E (calls w + 2)
       then Inr ((True, ls_signals (detect_o13_lock (ratio_of E) (reply_of E (calls w + 2)))),
                 m\<lparr>iter := 2\<rparr>, \<lparr>now = now w + ?l1 + ?s + ?l2, calls = calls w + 2\<rparr>)
       else seed_loop cfg E seed (m\<lparr>iter := 2\<rparr>) ?w2)"
    using seed_loop_step [OF tr q(1), of "m\<lparr>iter := 1\<rparr>" ?w1 cfg] q(2) t1 mx
    by (simp add: numeral_2_eq_2)
  have A: "\<exists>m' w'. run_sweep cfg E [seed] m w =
                  Inr ([\<lparr>o_seed = seed, o_locked = False, o_iterations = 3, o_signals = []\<rparr>],
                       m', w') \<and> calls w' = calls w + 3"
    if n2: "\<not> reply_locks E (calls w + 2)" and n3: "\<not> reply_locks E (calls w + 3)"
      and t2: "now w + ?l1 + ?s + ?l2 + ?s - start m \<le> MAX_MINUTES cfg * 60"
  proof -
    have s3: "seed_loop cfg E seed (m\<lparr>iter := 2\<rparr>) ?w2 = seed_loop cfg E seed (m\<lparr>iter := 3\<rparr>) ?w3"
      using seed_loop_step [OF tr q(1), of "m\<lparr>iter := 2\<rparr>" ?w2 cfg] q(2) t2 mx n3
      by (simp add: numeral_3_eq_3 numeral_2_eq_2)
    have s4: "seed_loop cfg E seed (m\<lparr>iter := 3\<rparr>) ?w3 = Inr ((False, []), m\<lparr>iter := 3\<rparr>, ?w3)"
      using seed_loop_halt [of cfg E ?w3 "m\<lparr>iter := 3\<rparr>" seed] mx q(1)
      by (simp add: should_stop_def deliver_quiet)
    show ?thesis using s1 s2 s3 s4 n2 by simp
  qed
  have B: "\<exists>m' w'. run_sweep cfg E [seed] m w =
                  Inr ([\<lparr>o_seed = seed, o_locked = True, o_iterations = 2,
                         o_signals = ls_signals (detect_o13_lock (ratio_of E)
                                                    (reply_of E (calls w + 2)))\<rparr>],
                       m', w') \<and> calls w' = calls w + 2"
    if "reply_locks E (calls w + 2)"
    using s1 s2 that by simp
  have C: "\<forall>seeds m0 w0 rs m' w'. run_sweep cfg E seeds m0 w0 = Inr (rs, m', w')
            \<longrightarrow> (\<forall>out\<in>set rs. o_iterations out \<le> MAX_ITERS cfg)"
    using run_sweep_iterations_le by blast
  show ?thesis using A B C by blast
qed

lemma accepted_seed_sweep_example:
  "(\<exists>m' w'. run_sweep example_config silent_oracle [''O13''] (new_mirror fresh_world) fresh_world =
       Inr ([\<lparr>o_seed = ''O13'', o_locked = False, o_iterations = 3, o_signals = []\<rparr>], m', w')
       \<and> calls w' = 3)
   \<and> (\<exists>m' w'. run_sweep example_config second_reply_locks [''O13''] (new_mirror fresh_world)
                 fresh_world =
       Inr ([\<lparr>o_seed = ''O13'', o_locked = True, o_iterations = 2,
              o_signals = [''primary exact'', ''secondary cue'']\<rparr>], m', w')
       \<and> calls w' = 2)"
proof -
  have r15: "resolve_n (PyStr ''O13'') True ''concat'' = Inr 15" by code_simp
  have b15: "(15::int) < 10 ^ MAX_STR_DIGITS" by (rule small_bound) simp
  obtain tr where
    tr: "t13_trace (PyStr ''O13'') (PyInt 13) 12 True ''concat'' 1 ''universal'' = Inr tr"
    using regular_path [OF r15 _ b15, of 13 12 1 "''universal''"] by auto
  have mx: "MAX_ITERS example_config = 3" by (simp add: example_config_def)
  have ns: "\<not> stop (new_mirror fresh_world)" by (simp add: new_mirror_def)
  have q1: "sigint_at silent_oracle = None" by (simp add: silent_oracle_def)
  have q2: "sigint_at second_reply_locks = None" by (simp add: second_reply_locks_def)
  have a0: "now fresh_world - start (new_mirror fresh_world)
              \<le> MAX_MINUTES example_config * 60"
    by (simp add: example_config_def fresh_world_def new_mirror_def)
  have a1: "now fresh_world + latency_of silent_oracle (calls fresh_world + 1)
              + BASE_SLEEP_SEC example_config - start (new_mirror fresh_world)
              \<le> MAX_MINUTES example_config * 60"
    by (simp add: example_config_def fresh_world_def new_mirror_def silent_oracle_def)
  have a2: "now fresh_world + latency_of silent_oracle (calls fresh_world + 1)
              + BASE_SLEEP_SEC example_config + latency_of silent_oracle (calls fresh_world + 2)
              + BASE_SLEEP_SEC example_config - start (new_mirror fresh_world)
              \<le> MAX_MINUTES example_config * 60"
    by (simp add: example_config_def fresh_world_def new_mirror_def silent_oracle_def)
  have b1: "now fresh_world + latency_of second_reply_locks (calls fresh_world + 1)
              + BASE_SLEEP_SEC example_config - start (new_mirror fresh_world)
              \<le> MAX_MINUTES example_config * 60"
    by (simp add: example_config_def fresh_world_def new_mirror_def second_reply_locks_def)
  have n1: "\<not> reply_locks silent_oracle (calls fresh_world + 1)" by code_simp
  have n2: "\<not> reply_locks silent_oracle (calls fresh_world + 2)" by code_simp
  have n3: "\<not> reply_locks silent_oracle (calls fresh_world + 3)" by code_simp
  have k1: "\<not> reply_locks second_reply_locks (calls fresh_world + 1)" by code_simp
  have k2: "reply_locks second_reply_locks (calls fresh_world + 2)" by code_simp
  have sg: "ls_signals (detect_o13_lock (ratio_of second_reply_locks)
               (reply_of second_reply_locks (calls fresh_world + 2)))
              = [''primary exact'', ''secondary cue'']"
    by code_simp
  have sg': "ls_signals (detect_o13_lock (ratio_of second_reply_locks)
               (reply_of second_reply_locks 2))
              = [''primary exact'', ''secondary cue'']"
    by code_simp
  have e2: "calls fresh_world + 2 = 2" and e3: "calls fresh_world + 3 = 3"
    by (simp_all add: fresh_world_def)
  have "\<exists>m' w'. run_sweep example_config silent_oracle [''O13''] (new_mirror fresh_world)
                  fresh_world =
       Inr ([\<lparr>o_seed = ''O13'', o_locked = False, o_iterations = 3, o_signals = []\<rparr>], m', w')
       \<and> calls w' = calls fresh_world + 3"
    using accepted_seed_sweep [OF tr mx q1 ns a0 a1 n1] n2 n3 a2 by blast
  then have r1: "\<exists>m' w'. run_sweep example_config silent_oracle [''O13'']
                  (new_mirror fresh_world) fresh_world =
       Inr ([\<lparr>o_seed = ''O13'', o_locked = False, o_iterations = 3, o_signals = []\<rparr>], m', w')
       \<and> calls w' = 3"
    by (simp only: e3)
  have "\<exists>m' w'. run_sweep example_config second_reply_locks [''O13''] (new_mirror fresh_world)
                 fresh_world =
       Inr ([\<lparr>o_seed = ''O13'', o_locked = True, o_iterations = 2,
              o_signals = ls_signals (detect_o13_lock (ratio_of second_reply_locks)
                            (reply_of second_reply_locks (calls fresh_world + 2)))\<rparr>], m', w')
       \<and> calls w' = calls fresh_world + 2"
    using accepted_seed_sweep [OF tr mx q2 ns a0 b1 k1] k2 by blast
  then have r2: "\<exists>m' w'. run_sweep example_config second_reply_locks [''O13'']
                 (new_mirror fresh_world) fresh_world =
       Inr ([\<lparr>o_seed = ''O13'', o_locked = True, o_iterations = 2,
              o_signals = [''primary exact'', ''secondary cue'']\<rparr>], m', w')
       \<and> calls w' = 2"
    by (simp only: sg sg' e2)
  show ?thesis using r1 r2 by blast
qed

text \<open>
  Claim C5. The claim holds for the seeds that the collapse accepts, as shown above, and
  fails for the others. The seed \<^verbatim>\<open>"7605"\<close> is one of the seeds that the program
  sweeps and has no letter: with a maximum of 3 iterations and an oracle that never
  locks, the first cycle raises in the encoder and the sweep returns no outcome.
\<close>

theorem sweep_raises_on_seed_7605:
  "''7605'' \<in> set SEED_SWEEP
   \<and> run_sweep example_config silent_oracle [''7605''] (new_mirror fresh_world) fresh_world
       = Inl (ValueError ''No alphabetic characters found in text input.'')"
  by code_simp

lemma run_sweep_time_up:
  "time_up cfg m w \<Longrightarrow>
     \<exists>m'. run_sweep cfg E seeds m w =
       Inr (map (\<lambda>s. \<lparr>o_seed = s, o_locked = False, o_iterations = 0, o_signals = []\<rparr>) seeds,
            m', w) \<and> start m' = start m"
proof (induction seeds arbitrary: m)
  case Nil
  then show ?case by simp
next
  case (Cons seed seeds)
  let ?m1 = "deliver E w (m\<lparr>iter := 0\<rparr>)"
  have tu: "time_up cfg ?m1 w"
    using Cons.prems by (simp add: time_up_def deliver_start)
  then have "should_stop cfg ?m1 w" by (simp add: should_stop_def)
  then have a: "seed_loop cfg E seed (m\<lparr>iter := 0\<rparr>) w = Inr ((False, []), ?m1, w)"
    by (rule seed_loop_halt)
  have st: "start ?m1 = start m" by (simp add: deliver_start)
  have it: "iter ?m1 = 0" by (simp add: deliver_iter)
  from Cons.IH [OF tu] obtain m' where
    b: "run_sweep cfg E seeds ?m1 w =
       Inr (map (\<lambda>s. \<lparr>o_seed = s, o_locked = False, o_iterations = 0, o_signals = []\<rparr>) seeds,
            m', w)" and c: "start m' = start ?m1"
    by blast
  show ?case using a b c st it by simp
qed

text \<open>
  Claim C9, as the code has it. The stop conditions are tested at the head of the loop,
  before each cycle: when they hold, the loop ends without a cycle. The time-based
  condition holds exactly when the time elapsed since the controller was constructed
  exceeds the budget. A sweep never resets that starting time, so the budget is shared
  by all seeds of the sweep: once it is exceeded, every remaining seed ends with zero
  iterations.
\<close>

theorem time_budget_shared:
  "(should_stop cfg (deliver E w m) w \<longrightarrow>
      seed_loop cfg E seed m w = Inr ((False, []), deliver E w m, w))
   \<and> (time_up cfg m w \<longleftrightarrow> now w - start m > MAX_MINUTES cfg * 60)
   \<and> start (new_mirror w) = now w
   \<and> (run_sweep cfg E seeds m w = Inr (rs, m', w') \<longrightarrow> start m' = start m)
   \<and> (time_up cfg m w \<longrightarrow>
        (\<exists>m''. run_sweep cfg E seeds m w =
           Inr (map (\<lambda>s. \<lparr>o_seed = s, o_locked = False, o_iterations = 0, o_signals = []\<rparr>)
                  seeds, m'', w) \<and> start m'' = start m))"
  using seed_loop_halt [of cfg E w m seed] run_sweep_start [of cfg E seeds m w rs m' w']
    run_sweep_time_up [of cfg m w E seeds]
  by (simp add: time_up_def new_mirror_def)

theorem time_budget_shared_witness:
  "time_up default_config \<lparr>start = 0, iter = 0, stop = False\<rparr> \<lparr>now = 1404, calls = 2\<rparr>
   \<and> (\<exists>m''. run_sweep default_config slow_oracle [''b'', ''c'']
               \<lparr>start = 0, iter = 0, stop = False\<rparr> \<lparr>now = 1404, calls = 2\<rparr> =
         Inr ([\<lparr>o_seed = ''b'', o_locked = False, o_iterations = 0, o_signals = []\<rparr>,
               \<lparr>o_seed = ''c'', o_locked = False, o_iterations = 0, o_signals = []\<rparr>],
              m'', \<lparr>now = 1404, calls = 2\<rparr>) \<and> start m'' = 0)"
proof -
  have a: "time_up default_config \<lparr>start = 0, iter = 0, stop = False\<rparr> \<lparr>now = 1404, calls = 2\<rparr>"
    by (simp add: time_up_def default_config_def)
  show ?thesis
    using time_budget_shared [of default_config slow_oracle "\<lparr>now = 1404, calls = 2\<rparr>"
                 "\<lparr>start = 0, iter = 0, stop = False\<rparr>" "''b''" "[''b'', ''c'']"] a
    by simp
qed

text \<open>
  The budget is not counted for each seed. With the default configuration and an oracle
  that takes 700 seconds for each call, the first of two seeds uses two cycles and ends
  at 1404 seconds; the loop of the second seed begins at that moment, no time has
  elapsed in it, and the time-based condition holds all the same, so the second seed
  gets no cycle.
\<close>

theorem time_budget_not_per_seed:
  "run_sweep default_config slow_oracle [''a'', ''b''] (new_mirror fresh_world) fresh_world =
     Inr ([\<lparr>o_seed = ''a'', o_locked = False, o_iterations = 2, o_signals = []\<rparr>,
           \<lparr>o_seed = ''b'', o_locked = False, o_iterations = 0, o_signals = []\<rparr>],
          \<lparr>start = 0, iter = 0, stop = False\<rparr>, \<lparr>now = 1404, calls = 2\<rparr>)
   \<and> time_up default_config \<lparr>start = 0, iter = 0, stop = False\<rparr> \<lparr>now = 1404, calls = 2\<rparr>
   \<and> \<not> time_up_per_seed default_config 1404 \<lparr>now = 1404, calls = 2\<rparr>"
  by code_simp

end
